theory Spec2Isabelle
  imports Main "HOL-Library.Word"
begin

section \<open>JavaScript values used by \<open>src/client/lazy-app/util/index.ts\<close>\<close>

text \<open>
  A JavaScript string is a sequence of UTF-16 code units. A string literal of the source
  that is plain ASCII is written \<open>str ''...''\<close>.
\<close>

type_synonym jsstring = "nat list"

definition str :: "string \<Rightarrow> jsstring" where
  "str s = map of_char s"

text \<open>
  The values the module throws, or rejects a promise with: \<open>Error(message)\<close>,
  \<open>new DOMException(message, name)\<close>, and the \<open>RangeError\<close> of
  \<open>String.fromCodePoint\<close>.
\<close>

datatype js_error =
    Error jsstring
  | RangeError jsstring
  | DOMException jsstring jsstring

type_synonym byte = "8 word"

record blob =
  blob_bytes :: "byte list"
  blob_type :: jsstring

section \<open>Regular expressions\<close>

text \<open>
  The regular-expression literals of the file use only: a literal character, \<open>.\<close>,
  a character class \<open>[...]\<close> or \<open>[^...]\<close>, the quantifiers \<open>*\<close> and \<open>+\<close> on one of
  these, and the assertions \<open>^\<close> and \<open>$\<close>. None has a flag, so \<open>.\<close> does not match
  a line terminator, \<open>^\<close> and \<open>$\<close> are the ends of the input, and every search starts
  at index 0.
\<close>

datatype atom = Lit nat | Dot | Class "nat list" | NegClass "nat list"

datatype item = Bos | Eos | One atom | Star atom | Plus atom

type_synonym regexp = "item list"

fun atom_ok :: "atom \<Rightarrow> nat \<Rightarrow> bool" where
  "atom_ok (Lit k) c = (c = k)"
| "atom_ok Dot c = (c \<noteq> 0x0A \<and> c \<noteq> 0x0D \<and> c \<noteq> 0x2028 \<and> c \<noteq> 0x2029)"
| "atom_ok (Class ks) c = (c \<in> set ks)"
| "atom_ok (NegClass ks) c = (c \<notin> set ks)"

definition lits :: "string \<Rightarrow> regexp" where
  "lits s = map (\<lambda>c. One (Lit (of_char c))) s"

definition hex :: "nat list \<Rightarrow> regexp" where
  "hex ks = map (\<lambda>k. One (Lit k)) ks"

text \<open>
  \<open>rmatch r b s\<close> matches the items \<open>r\<close> at the front of \<open>s\<close>, where \<open>b\<close> tells whether
  \<open>s\<close> starts at index 0 of the input. Quantifiers are greedy and backtrack. The result
  holds, for each item, the characters it consumed; a capture group around a single
  quantified atom is the entry of that item.
\<close>

fun rmatch :: "regexp \<Rightarrow> bool \<Rightarrow> jsstring \<Rightarrow> jsstring list option" where
  "rmatch [] b s = Some []"
| "rmatch (Bos # r) b s = (if b then map_option (Cons []) (rmatch r b s) else None)"
| "rmatch (Eos # r) b s = (if s = [] then map_option (Cons []) (rmatch r b s) else None)"
| "rmatch (One a # r) b [] = None"
| "rmatch (One a # r) b (c # cs) =
     (if atom_ok a c then map_option (Cons [c]) (rmatch r False cs) else None)"
| "rmatch (Star a # r) b [] = map_option (Cons []) (rmatch r b [])"
| "rmatch (Star a # r) b (c # cs) =
     (if atom_ok a c
      then (case rmatch (Star a # r) False cs of
              Some (g # gs) \<Rightarrow> Some ((c # g) # gs)
            | _ \<Rightarrow> map_option (Cons []) (rmatch r b (c # cs)))
      else map_option (Cons []) (rmatch r b (c # cs)))"
| "rmatch (Plus a # r) b [] = None"
| "rmatch (Plus a # r) b (c # cs) =
     (if atom_ok a c
      then (case rmatch (Star a # r) False cs of
              Some (g # gs) \<Rightarrow> Some ((c # g) # gs)
            | _ \<Rightarrow> None)
      else None)"

text \<open>\<open>RegExp.prototype.exec\<close>: the leftmost index at which the pattern matches.\<close>

fun exec_from :: "regexp \<Rightarrow> bool \<Rightarrow> jsstring \<Rightarrow> jsstring list option" where
  "exec_from r b [] = rmatch r b []"
| "exec_from r b (c # cs) =
     (case rmatch r b (c # cs) of
        Some gs \<Rightarrow> Some gs
      | None \<Rightarrow> exec_from r False cs)"

definition regexp_exec :: "regexp \<Rightarrow> jsstring \<Rightarrow> jsstring list option" where
  "regexp_exec r s = exec_from r True s"

definition regexp_test :: "regexp \<Rightarrow> jsstring \<Rightarrow> bool" where
  "regexp_test r s = (regexp_exec r s \<noteq> None)"

section \<open>MIME-type sniffing\<close>

text \<open>The table \<open>magicNumberMapInput\<close>, entry for entry.\<close>

definition magicNumberMapInput :: "(regexp \<times> jsstring) list" where
  "magicNumberMapInput =
   [ (Bos # lits ''%PDF-'', str ''application/pdf''),
     (Bos # lits ''GIF87a'', str ''image/gif''),
     (Bos # lits ''GIF89a'', str ''image/gif''),
     (Bos # hex [0x89] @ lits ''PNG'' @ hex [0x0D, 0x0A, 0x1A, 0x0A], str ''image/png''),
     (Bos # hex [0xFF, 0xD8, 0xFF], str ''image/jpeg''),
     (Bos # lits ''BM'', str ''image/bmp''),
     (Bos # lits ''I I'', str ''image/tiff''),
     (Bos # lits ''I'' @ [Star (Lit (of_char CHR ''I''))], str ''image/tiff''),
     (Bos # lits ''MM'' @ [Star (Lit 0x00)], str ''image/tiff''),
     (Bos # lits ''RIFF'' @ [One Dot, One Dot, One Dot, One Dot] @ lits ''WEBPVP8''
        @ [One (Class (str ''LX ''))], str ''image/webp''),
     (Bos # hex [0xF4, 0xFF, 0x6F], str ''image/webp2''),
     (Bos # hex [0x00, 0x00, 0x00] @ lits '' ftypavif'' @ hex [0x00, 0x00, 0x00, 0x00],
        str ''image/avif''),
     (Bos # hex [0xFF, 0x0A], str ''image/jxl''),
     (Bos # hex [0x00, 0x00, 0x00, 0x0C] @ lits ''JXL '' @ hex [0x0D, 0x0A, 0x87, 0x0A],
        str ''image/jxl'') ]"

text \<open>
  \<open>new Map(magicNumberMapInput)\<close>: the keys are fourteen distinct \<open>RegExp\<close> objects, so
  the map keeps every entry, and iterates in insertion order.
\<close>

definition magicNumberToMimeType :: "(regexp \<times> jsstring) list" where
  "magicNumberToMimeType = magicNumberMapInput"

text \<open>
  \<open>Blob.slice(start, end)\<close> of the File API: a negative bound counts from the end, and
  both bounds are clamped to the size of the blob. No content type is given, so the type
  of the slice is empty.
\<close>

definition blob_slice :: "int \<Rightarrow> int \<Rightarrow> blob \<Rightarrow> blob" where
  "blob_slice start end b =
     (let size = int (length (blob_bytes b));
          relativeStart = (if start < 0 then max (size + start) 0 else min start size);
          relativeEnd = (if end < 0 then max (size + end) 0 else min end size);
          span = max (relativeEnd - relativeStart) 0
      in \<lparr> blob_bytes = take (nat span) (drop (nat relativeStart) (blob_bytes b)),
           blob_type = [] \<rparr>)"

text \<open>\<open>new Response(blob).arrayBuffer()\<close>: the bytes of a blob held in memory.\<close>

definition blobToArrayBuffer :: "blob \<Rightarrow> byte list" where
  "blobToArrayBuffer b = blob_bytes b"

text \<open>
  \<open>String.fromCodePoint\<close>: one code unit below \<open>0x10000\<close>, a surrogate pair up to
  \<open>0x10FFFF\<close>, a \<open>RangeError\<close> beyond.
\<close>

definition fromCodePoint :: "nat \<Rightarrow> js_error + jsstring" where
  "fromCodePoint cp =
     (if cp > 0x10FFFF then Inl (RangeError (str ''Invalid code point''))
      else if cp < 0x10000 then Inr [cp]
      else Inr [0xD800 + (cp - 0x10000) div 0x400, 0xDC00 + (cp - 0x10000) mod 0x400])"

text \<open>\<open>.map((v) => String.fromCodePoint(v)).join('')\<close>\<close>

fun fromCodePoints :: "nat list \<Rightarrow> js_error + jsstring" where
  "fromCodePoints [] = Inr []"
| "fromCodePoints (v # vs) =
     (case fromCodePoint v of
        Inl e \<Rightarrow> Inl e
      | Inr c \<Rightarrow> (case fromCodePoints vs of Inl e \<Rightarrow> Inl e | Inr r \<Rightarrow> Inr (c @ r)))"

text \<open>The \<open>for ... of\<close> loop of \<open>sniffMimeType\<close>, and its \<open>return ''\<close>.\<close>

fun sniff_loop :: "(regexp \<times> jsstring) list \<Rightarrow> jsstring \<Rightarrow> jsstring" where
  "sniff_loop [] firstChunkString = []"
| "sniff_loop ((detector, mimeType) # rest) firstChunkString =
     (if regexp_test detector firstChunkString then mimeType
      else sniff_loop rest firstChunkString)"

definition firstChunkString :: "blob \<Rightarrow> js_error + jsstring" where
  "firstChunkString b =
     (let firstChunk = blobToArrayBuffer (blob_slice 0 16 b)
      in fromCodePoints (map unat firstChunk))"

definition sniffMimeType :: "blob \<Rightarrow> js_error + jsstring" where
  "sniffMimeType b =
     (case firstChunkString b of
        Inl e \<Rightarrow> Inl e
      | Inr s \<Rightarrow> Inr (sniff_loop magicNumberToMimeType s))"


subsection \<open>The signature of a pattern\<close>

text \<open>
  Every pattern of the table is \<open>^\<close>, a run of single-character atoms, and at most a
  trailing \<open>x*\<close>. Such a pattern accepts a string exactly when the string starts with
  characters the atoms accept, one by one; the trailing \<open>x*\<close> accepts anything.
  \<open>sig_of\<close> extracts the run of atoms, \<open>starts_with\<close> is the test it stands for, and
  \<open>clash\<close> tells that two runs demand different characters at some position.
\<close>

fun fixed_part :: "regexp \<Rightarrow> atom list option" where
  "fixed_part [] = Some []"
| "fixed_part [Star a] = Some []"
| "fixed_part (One a # r) = map_option (Cons a) (fixed_part r)"
| "fixed_part r = None"

fun sig_of :: "regexp \<Rightarrow> atom list option" where
  "sig_of (Bos # r) = fixed_part r"
| "sig_of r = None"

fun starts_with :: "atom list \<Rightarrow> jsstring \<Rightarrow> bool" where
  "starts_with [] s = True"
| "starts_with (a # as) [] = False"
| "starts_with (a # as) (c # cs) = (atom_ok a c \<and> starts_with as cs)"

fun clash :: "atom list \<Rightarrow> atom list \<Rightarrow> bool" where
  "clash (Lit x # xs) (Lit y # ys) = (x \<noteq> y \<or> clash xs ys)"
| "clash (a # xs) (a' # ys) = clash xs ys"
| "clash xs ys = False"

text \<open>The signatures of the fourteen entries, with the character codes written out.\<close>

definition signatures :: "(atom list \<times> string) list" where
  "signatures =
   [ ([Lit 37, Lit 80, Lit 68, Lit 70, Lit 45], ''application/pdf''),
     ([Lit 71, Lit 73, Lit 70, Lit 56, Lit 55, Lit 97], ''image/gif''),
     ([Lit 71, Lit 73, Lit 70, Lit 56, Lit 57, Lit 97], ''image/gif''),
     ([Lit 137, Lit 80, Lit 78, Lit 71, Lit 13, Lit 10, Lit 26, Lit 10], ''image/png''),
     ([Lit 255, Lit 216, Lit 255], ''image/jpeg''),
     ([Lit 66, Lit 77], ''image/bmp''),
     ([Lit 73, Lit 32, Lit 73], ''image/tiff''),
     ([Lit 73], ''image/tiff''),
     ([Lit 77, Lit 77], ''image/tiff''),
     ([Lit 82, Lit 73, Lit 70, Lit 70, Dot, Dot, Dot, Dot, Lit 87, Lit 69, Lit 66, Lit 80,
       Lit 86, Lit 80, Lit 56, Class [76, 88, 32]], ''image/webp''),
     ([Lit 244, Lit 255, Lit 111], ''image/webp2''),
     ([Lit 0, Lit 0, Lit 0, Lit 32, Lit 102, Lit 116, Lit 121, Lit 112, Lit 97, Lit 118,
       Lit 105, Lit 102, Lit 0, Lit 0, Lit 0, Lit 0], ''image/avif''),
     ([Lit 255, Lit 10], ''image/jxl''),
     ([Lit 0, Lit 0, Lit 0, Lit 12, Lit 74, Lit 88, Lit 76, Lit 32, Lit 13, Lit 10, Lit 135,
       Lit 10], ''image/jxl'') ]"

fun sniff_sigs :: "(atom list \<times> string) list \<Rightarrow> jsstring \<Rightarrow> jsstring" where
  "sniff_sigs [] s = []"
| "sniff_sigs ((as, T) # rest) s = (if starts_with as s then str T else sniff_sigs rest s)"

section \<open>Cancellation: \<open>assertSignal\<close> and \<open>abortable\<close>\<close>

text \<open>
  A promise is described by the moment it settles and by its outcome; \<open>None\<close> is a
  promise that stays pending for ever. Moments are counted from the call of the function
  under study: moment 0 is the call itself, so a promise that is already settled, or
  that is settled by the call, settles at 0.
\<close>

datatype 'a settled = Fulfilled 'a | Rejected js_error

type_synonym 'a promise = "(nat \<times> 'a settled) option"

text \<open>
  An \<open>AbortSignal\<close>: whether it is aborted when the call is made, the moment after the
  call at which its \<open>abort\<close> event is dispatched (if ever), and the number of \<open>abort\<close>
  listeners registered on it.
\<close>

record abort_signal =
  aborted :: bool
  fires :: "nat option"
  listeners :: nat

definition AbortError :: js_error where
  "AbortError = DOMException (str ''AbortError'') (str ''AbortError'')"

definition assertSignal :: "abort_signal \<Rightarrow> js_error + unit" where
  "assertSignal signal = (if aborted signal then Inl AbortError else Inr ())"

text \<open>
  \<open>Promise.race\<close>: the outcome of the promise that settles first. Of two promises that
  are settled at the same moment, the one listed first is subscribed first and wins.
  The race of no promise stays pending.
\<close>

fun Promise_race :: "'a promise list \<Rightarrow> 'a promise" where
  "Promise_race [] = None"
| "Promise_race (None # ps) = Promise_race ps"
| "Promise_race (Some (t, r) # ps) =
     (case Promise_race ps of
        None \<Rightarrow> Some (t, r)
      | Some (t', r') \<Rightarrow> if t \<le> t' then Some (t, r) else Some (t', r'))"

text \<open>
  \<open>new Promise((_, reject) => signal.addEventListener('abort', () => reject(...)))\<close>:
  rejected when the \<open>abort\<close> event is dispatched, pending until then.
\<close>

definition abort_promise :: "abort_signal \<Rightarrow> 'a promise" where
  "abort_promise signal =
     (case fires signal of None \<Rightarrow> None | Some t \<Rightarrow> Some (t, Rejected AbortError))"

text \<open>
  \<open>abortable\<close> is an \<open>async\<close> function: what \<open>assertSignal\<close> throws becomes the
  rejection of the promise it returns, at once. Otherwise a listener is added to the
  signal and the race is returned. The signal is returned with the promise, since the
  call may add a listener to it.
\<close>

definition abortable :: "abort_signal \<Rightarrow> 'a promise \<Rightarrow> abort_signal \<times> 'a promise" where
  "abortable signal promise =
     (case assertSignal signal of
        Inl e \<Rightarrow> (signal, Some (0, Rejected e))
      | Inr _ \<Rightarrow>
          (signal\<lparr>listeners := listeners signal + 1\<rparr>,
           Promise_race [promise, abort_promise signal]))"


section \<open>Capability probing: \<open>canDecodeImageType\<close>\<close>

text \<open>
  The promise of a probe is pending from the call up to the microtask that follows
  \<open>await 0\<close>, which reads \<open>img.currentSrc\<close> and resolves it. Whether the browser
  populates \<open>currentSrc\<close> for a \<open>source\<close> of a given type is the parameter
  \<open>supports\<close>.
\<close>

datatype probe_promise = Pending jsstring | Resolved bool

text \<open>
  The state of the module: the cache \<open>canDecodeCache\<close>, from a type to the handle of
  the promise stored for it; the promises created so far (a handle is an index); and
  the types for which the \<open>picture\<close> element has been built, in order.
\<close>

record probe_state =
  canDecodeCache :: "jsstring \<rightharpoonup> nat"
  promises :: "probe_promise list"
  probes :: "jsstring list"

definition init_state :: probe_state where
  "init_state = \<lparr> canDecodeCache = Map.empty, promises = [], probes = [] \<rparr>"

definition canDecodeImageType :: "jsstring \<Rightarrow> probe_state \<Rightarrow> nat \<times> probe_state" where
  "canDecodeImageType type st =
     (case canDecodeCache st type of
        None \<Rightarrow>
          (let resultPromise = length (promises st);
               st' = st\<lparr> promises := promises st @ [Pending type],
                         probes := probes st @ [type],
                         canDecodeCache := (canDecodeCache st)(type \<mapsto> resultPromise) \<rparr>
           in (resultPromise, st'))
      | Some p \<Rightarrow> (p, st))"

text \<open>The microtasks run: every pending probe reads \<open>img.currentSrc\<close> and resolves.\<close>

definition microtasks :: "(jsstring \<Rightarrow> bool) \<Rightarrow> probe_state \<Rightarrow> probe_state" where
  "microtasks supports st =
     st\<lparr> promises :=
           map (\<lambda>p. case p of Pending type \<Rightarrow> Resolved (supports type) | Resolved v \<Rightarrow> Resolved v)
             (promises st) \<rparr>"

text \<open>
  What can happen to the module's state: a call of \<open>canDecodeImageType\<close>, or a run of
  the microtasks. Nothing else in the file touches \<open>canDecodeCache\<close>.
\<close>

datatype event = Call jsstring | Microtasks

fun step :: "(jsstring \<Rightarrow> bool) \<Rightarrow> event \<Rightarrow> probe_state \<Rightarrow> probe_state" where
  "step supports (Call type) st = snd (canDecodeImageType type st)"
| "step supports Microtasks st = microtasks supports st"

fun run :: "(jsstring \<Rightarrow> bool) \<Rightarrow> event list \<Rightarrow> probe_state \<Rightarrow> probe_state" where
  "run supports [] st = st"
| "run supports (ev # evs) st = run supports evs (step supports ev st)"

section \<open>Encoding through a canvas: \<open>canvasEncode\<close>\<close>

record image_data =
  img_width :: nat
  img_height :: nat
  img_data :: "byte list"

text \<open>
  What the browser contributes to \<open>canvasEncode\<close>: whether a 2D context can be had,
  whether the canvas has \<open>toBlob\<close>, what \<open>toBlob\<close> hands to its callback and what
  \<open>toDataURL\<close> returns for the pixels put on the canvas, and \<open>atob\<close>. The quality is
  passed through untouched, so its type is left open.
\<close>

record 'q browser =
  getContext2d :: bool
  has_toBlob :: bool
  toBlob :: "image_data \<Rightarrow> jsstring \<Rightarrow> 'q option \<Rightarrow> blob option"
  toDataURL :: "image_data \<Rightarrow> jsstring \<Rightarrow> 'q option \<Rightarrow> jsstring"
  atob :: "jsstring \<Rightarrow> js_error + jsstring"

text \<open>
  \<open>/data:([^;]+);base64,(.*)$/\<close>. The first group is the item at index 5 and the second
  the item at index 14.
\<close>

definition dataUrlPattern :: regexp where
  "dataUrlPattern =
     lits ''data:'' @ [Plus (NegClass (str '';''))] @ lits '';base64,'' @ [Star Dot, Eos]"

text \<open>
  \<open>new Blob([data], { type })\<close> of the File API: a type with a character outside
  \<open>U+0020\<close> to \<open>U+007E\<close> becomes the empty string, and any other type is converted
  to ASCII lower case.
\<close>

definition ascii_lowercase :: "nat \<Rightarrow> nat" where
  "ascii_lowercase c = (if 0x41 \<le> c \<and> c \<le> 0x5A then c + 0x20 else c)"

definition new_Blob :: "byte list \<Rightarrow> jsstring \<Rightarrow> blob" where
  "new_Blob data type =
     \<lparr> blob_bytes = data,
       blob_type = (if \<exists>c \<in> set type. c < 0x20 \<or> 0x7E < c then []
                    else map ascii_lowercase type) \<rparr>"

definition canvasEncode :: "'q browser \<Rightarrow> image_data \<Rightarrow> jsstring \<Rightarrow> 'q option \<Rightarrow> js_error + blob" where
  "canvasEncode env data type quality =
     (if \<not> getContext2d env then Inl (Error (str ''Canvas not initialized''))
      else
        (case
           (if has_toBlob env then Inr (toBlob env data type quality)
            else
              (let dataUrl = toDataURL env data type quality
               in case regexp_exec dataUrlPattern dataUrl of
                    None \<Rightarrow> Inl (Error (str ''Data URL reading failed''))
                  | Some result \<Rightarrow>
                      (let outputType = result ! 5
                       in case atob env (result ! 14) of
                            Inl e \<Rightarrow> Inl e
                          | Inr binaryStr \<Rightarrow>
                              Inr (Some (new_Blob (map (\<lambda>c. of_nat c) binaryStr)
                                           outputType)))))
         of
           Inl e \<Rightarrow> Inl e
         | Inr None \<Rightarrow> Inl (Error (str ''Encoding failed''))
         | Inr (Some b) \<Rightarrow> Inr b))"

text \<open>
  A browser whose canvas encodes PNG only: as the canvas standard prescribes, and as the
  comment in \<open>canvasEncodeTest\<close> reports of Safari and Firefox, a request for a type
  it does not support is served with a PNG blob.
\<close>

definition png_only_browser :: "nat browser" where
  "png_only_browser =
     \<lparr> getContext2d = True, has_toBlob = True,
       toBlob = (\<lambda>data type quality.
                   Some \<lparr> blob_bytes = [0x89, 0x50, 0x4E, 0x47], blob_type = str ''image/png'' \<rparr>),
       toDataURL = (\<lambda>data type quality. str ''data:image/png;base64,iVBORw==''),
       atob = (\<lambda>s. Inr []) \<rparr>"

section \<open>Properties of the pattern matcher\<close>

lemma rmatch_Star_last: "(rmatch [Star a] b s = None) = False"
  by (induction s arbitrary: b) (auto split: option.splits list.splits)

lemma rmatch_fixed_part:
  "fixed_part r = Some as \<Longrightarrow> (rmatch r b s = None) = (\<not> starts_with as s)"
proof (induction r arbitrary: as b s rule: fixed_part.induct)
  case 1
  then show ?case by simp
next
  case (2 a)
  then show ?case
    by (simp only: rmatch_Star_last fixed_part.simps option.inject starts_with.simps) simp
next
  case (3 a r)
  then show ?case by (cases s) auto
qed simp_all

lemma exec_from_Bos: "exec_from (Bos # r) False s = None"
  by (induction s) simp_all

lemma regexp_test_Bos: "regexp_test (Bos # r) s = (\<not> rmatch r True s = None)"
  by (cases s) (auto simp: regexp_test_def regexp_exec_def exec_from_Bos split: option.splits)

lemma regexp_test_sig:
  "sig_of R = Some as \<Longrightarrow> regexp_test R s = starts_with as s"
  by (cases R rule: sig_of.cases) (simp_all add: regexp_test_Bos rmatch_fixed_part)

lemma starts_with_append: "starts_with as s \<Longrightarrow> starts_with as (s @ t)"
  by (induction as s rule: starts_with.induct) auto

lemma starts_with_take: "length as \<le> n \<Longrightarrow> starts_with as (take n s) = starts_with as s"
proof (induction as s arbitrary: n rule: starts_with.induct)
  case (3 a as c cs)
  then show ?case by (cases n) auto
qed auto

lemma starts_with_length: "starts_with as s \<Longrightarrow> length as \<le> length s"
  by (induction as s rule: starts_with.induct) auto

lemma clash_starts_with: "clash as as' \<Longrightarrow> starts_with as s \<Longrightarrow> \<not> starts_with as' s"
proof (induction as as' arbitrary: s rule: clash.induct)
  case (1 x xs y ys)
  then show ?case by (cases s) auto
qed (case_tac s; auto)+

section \<open>Properties of \<open>sniffMimeType\<close>\<close>

lemma unat_byte_less: "unat (w :: byte) < 256"
  using unsigned_less [of w] by simp

lemma fromCodePoint_byte: "fromCodePoint (unat (w :: byte)) = Inr [unat w]"
  using unat_byte_less [of w] by (simp add: fromCodePoint_def)

lemma fromCodePoints_bytes: "fromCodePoints (map unat (ws :: byte list)) = Inr (map unat ws)"
  by (induction ws) (simp_all add: fromCodePoint_byte)

lemma blob_slice_unfold:
  "blob_bytes (blob_slice 0 16 b) =
     take (nat (max (min 16 (int (length (blob_bytes b))) - min 0 (int (length (blob_bytes b)))) 0))
       (drop (nat (min 0 (int (length (blob_bytes b))))) (blob_bytes b))"
  unfolding blob_slice_def Let_def by simp

lemma take_min_16: "take (min 16 (length xs)) xs = take 16 xs"
  by (cases "16 \<le> length xs") (simp_all add: min_def)

lemma blob_slice_0_16: "blob_bytes (blob_slice 0 16 b) = take 16 (blob_bytes b)"
proof -
  have 1: "min 0 (int n) = 0" for n by simp
  have 2: "max (min 16 (int n) - 0) 0 = min 16 (int n)" for n by simp
  have 3: "nat (min 16 (int n)) = min 16 n" for n by (simp add: min_def)
  show ?thesis
    by (simp only: blob_slice_unfold 1 2 3 take_min_16 nat_0 drop_0)
qed

lemma firstChunkString_eq:
  "firstChunkString b = Inr (map unat (take 16 (blob_bytes b)))"
  by (simp add: firstChunkString_def blobToArrayBuffer_def blob_slice_0_16 fromCodePoints_bytes)

lemma table_signatures:
  "map (\<lambda>(R, T). (sig_of R, T)) magicNumberMapInput =
   map (\<lambda>(as, T). (Some as, str T)) signatures"
  by (simp add: magicNumberMapInput_def signatures_def lits_def hex_def str_def)

lemma sniff_loop_sigs:
  "map (\<lambda>(R, T). (sig_of R, T)) tbl = map (\<lambda>(as, T). (Some as, str T)) sigs \<Longrightarrow>
   sniff_loop tbl s = sniff_sigs sigs s"
proof (induction tbl arbitrary: sigs)
  case Nil
  then show ?case by simp
next
  case (Cons e tbl)
  then obtain g sigs' where sigs: "sigs = g # sigs'" by (cases sigs) auto
  obtain R T where e: "e = (R, T)" by (cases e)
  obtain as T0 where g: "g = (as, T0)" by (cases g)
  from Cons.prems sigs e g have hd: "sig_of R = Some as" "T = str T0"
    and tl: "map (\<lambda>(R, T). (sig_of R, T)) tbl = map (\<lambda>(as, T). (Some as, str T)) sigs'"
    by simp_all
  from Cons.IH [OF tl] hd show ?case
    by (simp add: sigs e g regexp_test_sig)
qed

lemma sniffMimeType_eq:
  "sniffMimeType b = Inr (sniff_sigs signatures (map unat (take 16 (blob_bytes b))))"
  by (simp add: sniffMimeType_def firstChunkString_eq magicNumberToMimeType_def
      sniff_loop_sigs [OF table_signatures])

lemma table_entry_sig:
  assumes "(R, T) \<in> set magicNumberMapInput"
  shows "\<exists>as T0. (as, T0) \<in> set signatures \<and> sig_of R = Some as \<and> T = str T0"
proof -
  from assms have "(sig_of R, T) \<in> set (map (\<lambda>(R, T). (sig_of R, T)) magicNumberMapInput)"
    by force
  then have "(sig_of R, T) \<in> set (map (\<lambda>(as, T). (Some as, str T)) signatures)"
    by (simp only: table_signatures)
  then show ?thesis by auto
qed

lemma signatures_length: "(as, T) \<in> set signatures \<Longrightarrow> length as \<le> 16"
  by (auto simp: signatures_def)

lemma signatures_clash_free:
  "list_all (\<lambda>(as, T). list_all (\<lambda>(as', T'). T = T' \<or> clash as as') signatures) signatures"
  unfolding signatures_def by simp

lemma sniff_sigs_first:
  "(as, T) \<in> set sigs \<Longrightarrow> starts_with as s \<Longrightarrow>
   \<forall>(as', T') \<in> set sigs. starts_with as' s \<longrightarrow> T' = T \<Longrightarrow>
   sniff_sigs sigs s = str T"
proof (induction sigs)
  case Nil
  then show ?case by simp
next
  case (Cons e sigs)
  obtain as0 T0 where e: "e = (as0, T0)" by (cases e)
  show ?case
  proof (cases "starts_with as0 s")
    case True
    with Cons.prems(3) e have "T0 = T" by simp
    with True e show ?thesis by simp
  next
    case False
    with Cons.prems(1,2) e have "(as, T) \<in> set sigs" by auto
    moreover from Cons.prems(3)
    have "\<forall>(as', T') \<in> set sigs. starts_with as' s \<longrightarrow> T' = T" by simp
    ultimately have "sniff_sigs sigs s = str T" using Cons.IH Cons.prems(2) by blast
    with False e show ?thesis by simp
  qed
qed

lemma sniff_sigs_none:
  "\<forall>(as, T) \<in> set sigs. \<not> starts_with as s \<Longrightarrow> sniff_sigs sigs s = []"
  by (induction sigs) auto

lemma sniff_sigs_result:
  "sniff_sigs sigs s = [] \<or>
   (\<exists>as T. (as, T) \<in> set sigs \<and> starts_with as s \<and> sniff_sigs sigs s = str T)"
proof (induction sigs)
  case Nil
  then show ?case by simp
next
  case (Cons e sigs)
  obtain as0 T0 where e: "e = (as0, T0)" by (cases e)
  show ?case
  proof (cases "starts_with as0 s")
    case True
    then have "(as0, T0) \<in> set (e # sigs) \<and> starts_with as0 s \<and> sniff_sigs (e # sigs) s = str T0"
      by (simp add: e)
    then show ?thesis by blast
  next
    case False
    then have "sniff_sigs (e # sigs) s = sniff_sigs sigs s" by (simp add: e)
    with Cons.IH show ?thesis by auto
  qed
qed

lemma signatures_starts_with:
  assumes "(as, T) \<in> set signatures" and "starts_with as s"
  shows "sniff_sigs signatures s = str T"
proof (rule sniff_sigs_first [OF assms])
  show "\<forall>(as', T') \<in> set signatures. starts_with as' s \<longrightarrow> T' = T"
  proof (clarify)
    fix as' T' assume m: "(as', T') \<in> set signatures" and s: "starts_with as' s"
    from signatures_clash_free assms(1) m have "T = T' \<or> clash as as'"
      by (fastforce simp: list_all_iff)
    with clash_starts_with [OF _ assms(2)] s show "T' = T" by blast
  qed
qed

lemma sniff_entry:
  assumes "(R, T) \<in> set magicNumberMapInput"
    and "regexp_test R (map unat S)"
    and "blob_bytes b = S @ rest"
  shows "sniffMimeType b = Inr T"
proof -
  from table_entry_sig [OF assms(1)] obtain as T0
    where m: "(as, T0) \<in> set signatures" and sg: "sig_of R = Some as" and T: "T = str T0"
    by blast
  from assms(2) sg have "starts_with as (map unat S)"
    by (simp add: regexp_test_sig)
  then have "starts_with as (map unat S @ map unat rest)"
    by (rule starts_with_append)
  then have "starts_with as (take 16 (map unat S @ map unat rest))"
    by (simp only: starts_with_take [OF signatures_length [OF m]])
  moreover have "take 16 (map unat S @ map unat rest) = map unat (take 16 (blob_bytes b))"
    by (simp only: assms(3) take_map map_append [symmetric])
  ultimately have "sniff_sigs signatures (map unat (take 16 (blob_bytes b))) = str T0"
    using signatures_starts_with [OF m] by simp
  then show ?thesis by (simp add: sniffMimeType_eq T)
qed

lemma sniff_no_entry:
  assumes "\<forall>(R, T) \<in> set magicNumberMapInput. \<not> regexp_test R (map unat (blob_bytes b))"
  shows "sniffMimeType b = Inr []"
proof -
  have "\<forall>(as, T) \<in> set signatures. \<not> starts_with as (map unat (take 16 (blob_bytes b)))"
  proof (clarify)
    fix as T0
    assume m: "(as, T0) \<in> set signatures"
      and s: "starts_with as (map unat (take 16 (blob_bytes b)))"
    from m have "(Some as, str T0) \<in> set (map (\<lambda>(as, T). (Some as, str T)) signatures)"
      by force
    then have "(Some as, str T0) \<in> set (map (\<lambda>(R, T). (sig_of R, T)) magicNumberMapInput)"
      by (simp only: table_signatures)
    then obtain R where R: "(R, str T0) \<in> set magicNumberMapInput" "sig_of R = Some as"
      by auto
    from starts_with_append [OF s, of "map unat (drop 16 (blob_bytes b))"]
    have "starts_with as (map unat (blob_bytes b))"
      by (simp add: map_append [symmetric] del: map_append)
    with R(2) have "regexp_test R (map unat (blob_bytes b))"
      by (simp add: regexp_test_sig)
    with assms R(1) show False by auto
  qed
  then show ?thesis by (simp add: sniffMimeType_eq sniff_sigs_none)
qed

lemma str_inject: "str a = str b \<Longrightarrow> a = b"
  unfolding str_def using inj_of_char [where 'a = nat] by (simp add: inj_map_eq_map)

lemma sniff_loop_least:
  "i < length tbl \<Longrightarrow> regexp_test (fst (tbl ! i)) s \<Longrightarrow>
   \<forall>j<i. \<not> regexp_test (fst (tbl ! j)) s \<Longrightarrow>
   sniff_loop tbl s = snd (tbl ! i)"
proof (induction tbl arbitrary: i)
  case Nil
  then show ?case by simp
next
  case (Cons e tbl)
  obtain R T where e: "e = (R, T)" by (cases e)
  show ?case
  proof (cases i)
    case 0
    with Cons.prems(2) e show ?thesis by simp
  next
    case (Suc k)
    from Cons.prems(3) Suc have "\<not> regexp_test (fst ((e # tbl) ! 0)) s" by blast
    then have no: "\<not> regexp_test R s" by (simp add: e)
    have "\<forall>j<k. \<not> regexp_test (fst (tbl ! j)) s"
    proof (intro allI impI)
      fix j assume "j < k"
      then have "Suc j < i" using Suc by simp
      with Cons.prems(3) have "\<not> regexp_test (fst ((e # tbl) ! Suc j)) s" by blast
      then show "\<not> regexp_test (fst (tbl ! j)) s" by simp
    qed
    moreover from Cons.prems(1,2) Suc have "k < length tbl" "regexp_test (fst (tbl ! k)) s"
      by simp_all
    ultimately have "sniff_loop tbl s = snd (tbl ! k)" using Cons.IH by blast
    with no e Suc show ?thesis by simp
  qed
qed

lemma sniff_loop_result: "sniff_loop tbl s = [] \<or> sniff_loop tbl s \<in> snd ` set tbl"
proof (induction tbl)
  case Nil
  then show ?case by simp
next
  case (Cons e tbl)
  obtain R T where e: "e = (R, T)" by (cases e)
  from Cons.IH show ?case by (cases "regexp_test R s") (auto simp: e)
qed

lemma table_nth_sig:
  assumes "j < 14"
  shows "sig_of (fst (magicNumberMapInput ! j)) = Some (fst (signatures ! j))"
proof -
  have l: "length magicNumberMapInput = 14" "length signatures = 14"
    by (simp_all add: magicNumberMapInput_def signatures_def)
  have "map (\<lambda>(R, T). (sig_of R, T)) magicNumberMapInput ! j =
        map (\<lambda>(as, T). (Some as, str T)) signatures ! j"
    by (simp only: table_signatures)
  with assms l show ?thesis
    by (simp add: case_prod_beta)
qed

lemma tiff_not_shadowed:
  "list_all (\<lambda>(as, T). clash [Lit 73, Lit 32, Lit 73] as) (take 6 signatures)"
  by (simp add: signatures_def)

lemma table_6: "magicNumberMapInput ! 6 = (Bos # lits ''I I'', str ''image/tiff'')"
  by (simp add: magicNumberMapInput_def)

lemma table_7:
  "magicNumberMapInput ! 7 = (Bos # lits ''I'' @ [Star (Lit (of_char CHR ''I''))], str ''image/tiff'')"
  by (simp add: magicNumberMapInput_def)

lemma test_6: "regexp_test (Bos # lits ''I I'') s = starts_with [Lit 73, Lit 32, Lit 73] s"
  by (rule regexp_test_sig) (simp add: lits_def)

lemma test_7:
  "regexp_test (Bos # lits ''I'' @ [Star (Lit (of_char CHR ''I''))]) s = starts_with [Lit 73] s"
  by (rule regexp_test_sig) (simp add: lits_def)

lemma test_8:
  "regexp_test (Bos # lits ''MM'' @ [Star (Lit 0x00)]) s = starts_with [Lit 77, Lit 77] s"
  by (rule regexp_test_sig) (simp add: lits_def)

lemma test_png:
  "regexp_test (Bos # hex [0x89] @ lits ''PNG'' @ hex [0x0D, 0x0A, 0x1A, 0x0A]) s =
   starts_with [Lit 137, Lit 80, Lit 78, Lit 71, Lit 13, Lit 10, Lit 26, Lit 10] s"
  by (rule regexp_test_sig) (simp add: lits_def hex_def)

lemma before_tiff:
  assumes "starts_with [Lit 73, Lit 32, Lit 73] s" and "j < 6"
  shows "\<not> regexp_test (fst (magicNumberMapInput ! j)) s"
proof -
  have "length signatures = 14" by (simp add: signatures_def)
  with assms(2) have "take 6 signatures ! j \<in> set (take 6 signatures)"
    by (intro nth_mem) simp
  with assms(2) have "signatures ! j \<in> set (take 6 signatures)"
    by simp
  with tiff_not_shadowed have "clash [Lit 73, Lit 32, Lit 73] (fst (signatures ! j))"
    by (auto simp: list_all_iff)
  from clash_starts_with [OF this assms(1)] table_nth_sig [of j] assms(2)
  show ?thesis by (simp add: regexp_test_sig)
qed

lemma sniff_zero:
  "blob_bytes z = [0, 0, 0, 0] @ rest \<Longrightarrow> sniffMimeType z = Inr []"
  by (simp add: sniffMimeType_eq signatures_def)

text \<open>
  The four size bytes of a RIFF header are matched by \<open>.\<close>, which accepts no line
  terminator: a WebP header whose size field holds the byte \<open>0x0A\<close> is not accepted by
  the pattern of the table.
\<close>

lemma webp_size_line_terminator:
  "sniffMimeType \<lparr> blob_bytes = [0x52, 0x49, 0x46, 0x46, 0x0A, 0x00, 0x00, 0x00,
                                   0x57, 0x45, 0x42, 0x50, 0x56, 0x50, 0x38, 0x20],
                     blob_type = [] \<rparr> = Inr []"
  by (simp add: sniffMimeType_eq signatures_def)

text \<open>
  Claim C1. For every entry \<open>(R, T)\<close> of the magic-number table and every byte string
  \<open>S\<close> that the pattern \<open>R\<close> accepts, a blob whose bytes start with \<open>S\<close> is sniffed
  as \<open>T\<close>, whatever follows. A blob of which no pattern of the table accepts a prefix
  is sniffed as the empty string. In particular a blob that begins with
  \<open>89 50 4E 47 0D 0A 1A 0A\<close> gives \<open>image/png\<close> and one that begins with
  \<open>00 00 00 00\<close> gives the empty string.
\<close>
theorem sniffMimeType_table:
  "((R, T) \<in> set magicNumberMapInput \<and> regexp_test R (map unat S) \<and> blob_bytes b = S @ rest
      \<longrightarrow> sniffMimeType b = Inr T)
   \<and> ((\<forall>(R, T) \<in> set magicNumberMapInput. \<not> regexp_test R (map unat (blob_bytes n)))
      \<longrightarrow> sniffMimeType n = Inr [])
   \<and> (blob_bytes p = [0x89, 0x50, 0x4E, 0x47, 0x0D, 0x0A, 0x1A, 0x0A] @ rest_p
      \<longrightarrow> sniffMimeType p = Inr (str ''image/png''))
   \<and> (blob_bytes z = [0x00, 0x00, 0x00, 0x00] @ rest_z \<longrightarrow> sniffMimeType z = Inr [])"
proof (intro conjI impI)
  assume "(R, T) \<in> set magicNumberMapInput \<and> regexp_test R (map unat S) \<and> blob_bytes b = S @ rest"
  then show "sniffMimeType b = Inr T" using sniff_entry by blast
next
  assume "\<forall>(R, T) \<in> set magicNumberMapInput. \<not> regexp_test R (map unat (blob_bytes n))"
  then show "sniffMimeType n = Inr []" by (rule sniff_no_entry)
next
  assume p: "blob_bytes p = [0x89, 0x50, 0x4E, 0x47, 0x0D, 0x0A, 0x1A, 0x0A] @ rest_p"
  have "(Bos # hex [0x89] @ lits ''PNG'' @ hex [0x0D, 0x0A, 0x1A, 0x0A], str ''image/png'')
        \<in> set magicNumberMapInput"
    by (simp add: magicNumberMapInput_def)
  moreover have "regexp_test (Bos # hex [0x89] @ lits ''PNG'' @ hex [0x0D, 0x0A, 0x1A, 0x0A])
        (map unat [0x89, 0x50, 0x4E, 0x47, 0x0D, 0x0A, 0x1A, 0x0A :: byte])"
    by (simp add: test_png)
  ultimately show "sniffMimeType p = Inr (str ''image/png'')"
    using p by (rule sniff_entry)
next
  assume "blob_bytes z = [0x00, 0x00, 0x00, 0x00] @ rest_z"
  then show "sniffMimeType z = Inr []" by (rule sniff_zero)
qed

theorem sniffMimeType_table_witness:
  "(Bos # hex [0x00, 0x00, 0x00] @ lits '' ftypavif'' @ hex [0x00, 0x00, 0x00, 0x00],
      str ''image/avif'') \<in> set magicNumberMapInput
   \<and> regexp_test (Bos # hex [0x00, 0x00, 0x00] @ lits '' ftypavif'' @ hex [0x00, 0x00, 0x00, 0x00])
        (map unat [0x00, 0x00, 0x00, 0x20, 0x66, 0x74, 0x79, 0x70,
                   0x61, 0x76, 0x69, 0x66, 0x00, 0x00, 0x00, 0x00 :: byte])
   \<and> sniffMimeType \<lparr> blob_bytes = [0x00, 0x00, 0x00, 0x20, 0x66, 0x74, 0x79, 0x70,
                                    0x61, 0x76, 0x69, 0x66, 0x00, 0x00, 0x00, 0x00] @ [0x6D, 0x69],
                       blob_type = [] \<rparr> = Inr (str ''image/avif'')
   \<and> list_all (\<lambda>(R, T). \<not> regexp_test R (map unat [0x01, 0x02, 0x03 :: byte])) magicNumberMapInput
   \<and> sniffMimeType \<lparr> blob_bytes = [0x01, 0x02, 0x03], blob_type = [] \<rparr> = Inr []
   \<and> sniffMimeType \<lparr> blob_bytes = [0x89, 0x50, 0x4E, 0x47, 0x0D, 0x0A, 0x1A, 0x0A] @ [0x00],
                       blob_type = [] \<rparr> = Inr (str ''image/png'')
   \<and> sniffMimeType \<lparr> blob_bytes = [0x00, 0x00, 0x00, 0x00] @ [0x07], blob_type = [] \<rparr> = Inr []"
proof -
  let ?R = "Bos # hex [0x00, 0x00, 0x00] @ lits '' ftypavif'' @ hex [0x00, 0x00, 0x00, 0x00]"
  let ?S = "[0x00, 0x00, 0x00, 0x20, 0x66, 0x74, 0x79, 0x70,
             0x61, 0x76, 0x69, 0x66, 0x00, 0x00, 0x00, 0x00 :: byte]"
  let ?b = "\<lparr> blob_bytes = ?S @ [0x6D, 0x69], blob_type = [] \<rparr>"
  let ?n = "\<lparr> blob_bytes = [0x01, 0x02, 0x03 :: byte], blob_type = [] \<rparr>"
  let ?p = "\<lparr> blob_bytes = [0x89, 0x50, 0x4E, 0x47, 0x0D, 0x0A, 0x1A, 0x0A :: byte] @ [0x00],
              blob_type = [] \<rparr>"
  let ?z = "\<lparr> blob_bytes = [0x00, 0x00, 0x00, 0x00 :: byte] @ [0x07], blob_type = [] \<rparr>"
  have h1: "(?R, str ''image/avif'') \<in> set magicNumberMapInput"
    by (simp add: magicNumberMapInput_def)
  have "sig_of ?R = Some [Lit 0, Lit 0, Lit 0, Lit 32, Lit 102, Lit 116, Lit 121, Lit 112,
                          Lit 97, Lit 118, Lit 105, Lit 102, Lit 0, Lit 0, Lit 0, Lit 0]"
    by (simp add: lits_def hex_def)
  then have h2: "regexp_test ?R (map unat ?S)"
    by (simp add: regexp_test_sig)
  have h3: "blob_bytes ?b = ?S @ [0x6D, 0x69]" by simp
  have h4: "list_all (\<lambda>(R, T). \<not> regexp_test R (map unat [0x01, 0x02, 0x03 :: byte]))
              magicNumberMapInput"
  proof -
    have "list_all (\<lambda>(as, T). \<not> starts_with as [1, 2, 3]) signatures"
      by (simp add: signatures_def)
    then have "\<forall>j<14. \<not> starts_with (fst (signatures ! j)) [1, 2, 3]"
      by (simp add: list_all_length signatures_def case_prod_beta)
    then have "\<forall>j<14. \<not> regexp_test (fst (magicNumberMapInput ! j)) [1, 2, 3]"
      using table_nth_sig by (simp add: regexp_test_sig)
    then show ?thesis
      by (simp add: list_all_length case_prod_beta magicNumberMapInput_def)
  qed
  then have h5: "\<forall>(R, T) \<in> set magicNumberMapInput. \<not> regexp_test R (map unat (blob_bytes ?n))"
    by (simp add: list_all_iff)
  have h6: "blob_bytes ?p = [0x89, 0x50, 0x4E, 0x47, 0x0D, 0x0A, 0x1A, 0x0A] @ [0x00]" by simp
  have h7: "blob_bytes ?z = [0x00, 0x00, 0x00, 0x00] @ [0x07]" by simp
  from sniffMimeType_table [where R = ?R and T = "str ''image/avif''" and S = ?S and b = ?b
      and rest = "[0x6D, 0x69]" and n = ?n and p = ?p and rest_p = "[0x00]" and z = ?z
      and rest_z = "[0x07]"]
  have "sniffMimeType ?b = Inr (str ''image/avif'')" "sniffMimeType ?n = Inr []"
    "sniffMimeType ?p = Inr (str ''image/png'')" "sniffMimeType ?z = Inr []"
    using h1 h2 h3 h5 h6 h7 by blast+
  with h1 h2 h4 show ?thesis by blast
qed

text \<open>
  Claim C4. \<open>sniffMimeType\<close> looks at the first 16 bytes only: two blobs that agree on
  their first 16 bytes get the same result, whatever their later bytes and their types.
\<close>
theorem sniffMimeType_first_16:
  "take 16 (blob_bytes b1) = take 16 (blob_bytes b2) \<Longrightarrow> sniffMimeType b1 = sniffMimeType b2"
  by (simp add: sniffMimeType_def firstChunkString_eq)

theorem sniffMimeType_first_16_witness:
  "take 16 (blob_bytes \<lparr> blob_bytes = [0x42, 0x4D, 2, 3, 4, 5, 6, 7, 8, 9, 10, 11, 12, 13, 14, 15, 0x25, 0x50],
                         blob_type = [] \<rparr>)
   = take 16 (blob_bytes \<lparr> blob_bytes = [0x42, 0x4D, 2, 3, 4, 5, 6, 7, 8, 9, 10, 11, 12, 13, 14, 15, 0xFF],
                           blob_type = str ''image/png'' \<rparr>)
   \<and> sniffMimeType \<lparr> blob_bytes = [0x42, 0x4D, 2, 3, 4, 5, 6, 7, 8, 9, 10, 11, 12, 13, 14, 15, 0x25, 0x50],
                       blob_type = [] \<rparr>
     = sniffMimeType \<lparr> blob_bytes = [0x42, 0x4D, 2, 3, 4, 5, 6, 7, 8, 9, 10, 11, 12, 13, 14, 15, 0xFF],
                         blob_type = str ''image/png'' \<rparr>"
proof -
  have h: "take 16 (blob_bytes \<lparr> blob_bytes = [0x42, 0x4D, 2, 3, 4, 5, 6, 7, 8, 9, 10, 11, 12, 13, 14, 15, 0x25, 0x50],
                         blob_type = [] \<rparr>)
   = take 16 (blob_bytes \<lparr> blob_bytes = [0x42, 0x4D, 2, 3, 4, 5, 6, 7, 8, 9, 10, 11, 12, 13, 14, 15, 0xFF],
                           blob_type = str ''image/png'' \<rparr>)"
    by simp
  from h sniffMimeType_first_16 [OF h] show ?thesis by (rule conjI)
qed

text \<open>
  Claim C5. The first matching entry wins: if entry \<open>i\<close> of the table matches the first
  chunk and no entry before it does, the result is the type of entry \<open>i\<close>, whichever
  later entries match as well. For TIFF, the specific pattern \<open>^I I\<close> is entry 6 and
  the generic \<open>^II*\<close> is entry 7: whatever entry 6 matches, entry 7 matches too, and no
  entry before 6 matches it, so the specific entry is the one that decides.
\<close>
theorem sniffMimeType_first_match_wins:
  "(i < length magicNumberMapInput \<and> firstChunkString b = Inr s
      \<and> regexp_test (fst (magicNumberMapInput ! i)) s
      \<and> (\<forall>j<i. \<not> regexp_test (fst (magicNumberMapInput ! j)) s)
      \<longrightarrow> sniffMimeType b = Inr (snd (magicNumberMapInput ! i)))
   \<and> magicNumberMapInput ! 6 = (Bos # lits ''I I'', str ''image/tiff'')
   \<and> magicNumberMapInput ! 7 =
       (Bos # lits ''I'' @ [Star (Lit (of_char CHR ''I''))], str ''image/tiff'')
   \<and> (regexp_test (fst (magicNumberMapInput ! 6)) s'
      \<longrightarrow> regexp_test (fst (magicNumberMapInput ! 7)) s'
          \<and> (\<forall>j<6. \<not> regexp_test (fst (magicNumberMapInput ! j)) s'))"
proof (intro conjI impI)
  assume a: "i < length magicNumberMapInput \<and> firstChunkString b = Inr s
      \<and> regexp_test (fst (magicNumberMapInput ! i)) s
      \<and> (\<forall>j<i. \<not> regexp_test (fst (magicNumberMapInput ! j)) s)"
  then have "sniff_loop magicNumberMapInput s = snd (magicNumberMapInput ! i)"
    using sniff_loop_least by blast
  with a show "sniffMimeType b = Inr (snd (magicNumberMapInput ! i))"
    by (simp add: sniffMimeType_def magicNumberToMimeType_def)
next
  show "magicNumberMapInput ! 6 = (Bos # lits ''I I'', str ''image/tiff'')"
    by (rule table_6)
next
  show "magicNumberMapInput ! 7 =
       (Bos # lits ''I'' @ [Star (Lit (of_char CHR ''I''))], str ''image/tiff'')"
    by (rule table_7)
next
  assume "regexp_test (fst (magicNumberMapInput ! 6)) s'"
  then have s: "starts_with [Lit 73, Lit 32, Lit 73] s'"
    by (simp add: table_6 test_6)
  have "regexp_test (fst (magicNumberMapInput ! 7)) s' = starts_with [Lit 73] s'"
    by (simp only: table_7 fst_conv test_7)
  moreover from s have "starts_with [Lit 73] s'"
    by (cases s') simp_all
  ultimately show "regexp_test (fst (magicNumberMapInput ! 7)) s'"
    by simp
  from s show "\<forall>j<6. \<not> regexp_test (fst (magicNumberMapInput ! j)) s'"
    using before_tiff by blast
qed

theorem sniffMimeType_first_match_wins_witness:
  "6 < length magicNumberMapInput
   \<and> firstChunkString \<lparr> blob_bytes = [0x49, 0x20, 0x49, 0x2A], blob_type = [] \<rparr>
       = Inr [0x49, 0x20, 0x49, 0x2A]
   \<and> regexp_test (fst (magicNumberMapInput ! 6)) [0x49, 0x20, 0x49, 0x2A]
   \<and> regexp_test (fst (magicNumberMapInput ! 7)) [0x49, 0x20, 0x49, 0x2A]
   \<and> sniffMimeType \<lparr> blob_bytes = [0x49, 0x20, 0x49, 0x2A], blob_type = [] \<rparr>
       = Inr (snd (magicNumberMapInput ! 6))"
proof -
  let ?b = "\<lparr> blob_bytes = [0x49, 0x20, 0x49, 0x2A :: byte], blob_type = [] \<rparr>"
  let ?s = "[0x49, 0x20, 0x49, 0x2A :: nat]"
  note inst = sniffMimeType_first_match_wins [where i = 6 and b = ?b and s = ?s and s' = ?s]
  have h1: "6 < length magicNumberMapInput" by (simp add: magicNumberMapInput_def)
  have h2: "firstChunkString ?b = Inr ?s" by (simp add: firstChunkString_eq)
  have h3: "regexp_test (fst (magicNumberMapInput ! 6)) ?s"
    by (simp add: table_6 test_6)
  from inst h3 have h4: "regexp_test (fst (magicNumberMapInput ! 7)) ?s"
    and h5: "\<forall>j<6. \<not> regexp_test (fst (magicNumberMapInput ! j)) ?s"
    by blast+
  from inst h1 h2 h3 h5 have "sniffMimeType ?b = Inr (snd (magicNumberMapInput ! 6))"
    by blast
  with h1 h2 h3 h4 show ?thesis by blast
qed

text \<open>
  Claim C9. On a blob shorter than 16 bytes \<open>sniffMimeType\<close> returns a value, not an
  error: the first chunk is the whole blob, the table is tested against these bytes, and
  the result is a type of the table or the empty string. Fewer signatures can match:
  the 16-byte AVIF signature cannot.
\<close>
theorem sniffMimeType_short_blob:
  "length (blob_bytes b) < 16 \<Longrightarrow>
   firstChunkString b = Inr (map unat (blob_bytes b))
   \<and> sniffMimeType b = Inr (sniff_loop magicNumberToMimeType (map unat (blob_bytes b)))
   \<and> (\<exists>t. sniffMimeType b = Inr t \<and> (t = [] \<or> t \<in> snd ` set magicNumberMapInput))
   \<and> sniffMimeType b \<noteq> Inr (str ''image/avif'')"
proof -
  assume short: "length (blob_bytes b) < 16"
  then have f: "firstChunkString b = Inr (map unat (blob_bytes b))"
    by (simp add: firstChunkString_eq)
  then have s: "sniffMimeType b = Inr (sniff_loop magicNumberToMimeType (map unat (blob_bytes b)))"
    by (simp add: sniffMimeType_def)
  have r: "\<exists>t. sniffMimeType b = Inr t \<and> (t = [] \<or> t \<in> snd ` set magicNumberMapInput)"
    using sniff_loop_result [of magicNumberMapInput "map unat (blob_bytes b)"]
    by (simp add: s magicNumberToMimeType_def)
  have "sniffMimeType b \<noteq> Inr (str ''image/avif'')"
  proof
    assume "sniffMimeType b = Inr (str ''image/avif'')"
    with short have e: "sniff_sigs signatures (map unat (blob_bytes b)) = str ''image/avif''"
      by (simp add: sniffMimeType_eq)
    moreover have "str ''image/avif'' \<noteq> []" by (simp add: str_def)
    ultimately obtain as T where m: "(as, T) \<in> set signatures"
      and sw: "starts_with as (map unat (blob_bytes b))" and T: "str T = str ''image/avif''"
      using sniff_sigs_result [of signatures "map unat (blob_bytes b)"] by auto
    from T have "T = ''image/avif''" by (rule str_inject)
    with m have "length as = 16" by (auto simp: signatures_def)
    with starts_with_length [OF sw] short show False by simp
  qed
  with f s r show ?thesis by blast
qed

theorem sniffMimeType_short_blob_witness:
  "length (blob_bytes \<lparr> blob_bytes = [0x42, 0x4D, 0x00], blob_type = [] \<rparr>) < 16
   \<and> sniffMimeType \<lparr> blob_bytes = [0x42, 0x4D, 0x00], blob_type = [] \<rparr> = Inr (str ''image/bmp'')
   \<and> sniffMimeType \<lparr> blob_bytes = [0x42, 0x4D, 0x00], blob_type = [] \<rparr> \<noteq> Inr (str ''image/avif'')"
proof -
  let ?b = "\<lparr> blob_bytes = [0x42, 0x4D, 0x00 :: byte], blob_type = [] \<rparr>"
  have h: "length (blob_bytes ?b) < 16" by simp
  have "sniff_loop magicNumberToMimeType (map unat (blob_bytes ?b)) = str ''image/bmp''"
    by (simp add: magicNumberToMimeType_def sniff_loop_sigs [OF table_signatures] signatures_def)
  moreover have "str ''image/bmp'' \<noteq> str ''image/avif''"
    using str_inject by fastforce
  ultimately show ?thesis using sniffMimeType_short_blob [OF h] h by simp
qed

text \<open>
  Claim C10. The TIFF entries \<open>^II*\<close> and \<open>^MM\x00*\<close> hold \<open>*\<close> as a quantifier.
  Hence every blob whose first byte is \<open>0x49\<close> is sniffed as \<open>image/tiff\<close>, and so is
  every blob whose first two bytes are \<open>0x4D 0x4D\<close>, whatever the remaining bytes are.
\<close>
theorem sniffMimeType_tiff_star:
  "(Bos # lits ''I'' @ [Star (Lit (of_char CHR ''I''))], str ''image/tiff'') \<in> set magicNumberMapInput
   \<and> (Bos # lits ''MM'' @ [Star (Lit 0x00)], str ''image/tiff'') \<in> set magicNumberMapInput
   \<and> (blob_bytes b = 0x49 # rest \<longrightarrow> sniffMimeType b = Inr (str ''image/tiff''))
   \<and> (blob_bytes b' = 0x4D # 0x4D # rest' \<longrightarrow> sniffMimeType b' = Inr (str ''image/tiff''))"
proof (intro conjI impI)
  show e7: "(Bos # lits ''I'' @ [Star (Lit (of_char CHR ''I''))], str ''image/tiff'')
            \<in> set magicNumberMapInput"
    by (simp add: magicNumberMapInput_def)
  show e8: "(Bos # lits ''MM'' @ [Star (Lit 0x00)], str ''image/tiff'') \<in> set magicNumberMapInput"
    by (simp add: magicNumberMapInput_def)
  {
    assume "blob_bytes b = 0x49 # rest"
    then have "blob_bytes b = [0x49] @ rest" by simp
    moreover have "regexp_test (Bos # lits ''I'' @ [Star (Lit (of_char CHR ''I''))])
                     (map unat [0x49 :: byte])"
      by (simp only: test_7) simp
    ultimately show "sniffMimeType b = Inr (str ''image/tiff'')"
      using sniff_entry [OF e7] by blast
  }
  {
    assume "blob_bytes b' = 0x4D # 0x4D # rest'"
    then have "blob_bytes b' = [0x4D, 0x4D] @ rest'" by simp
    moreover have "regexp_test (Bos # lits ''MM'' @ [Star (Lit 0x00)])
                     (map unat [0x4D, 0x4D :: byte])"
      by (simp only: test_8) simp
    ultimately show "sniffMimeType b' = Inr (str ''image/tiff'')"
      using sniff_entry [OF e8] by blast
  }
qed

theorem sniffMimeType_tiff_star_witness:
  "blob_bytes \<lparr> blob_bytes = [0x49, 0x44, 0x33], blob_type = [] \<rparr> = 0x49 # [0x44, 0x33]
   \<and> sniffMimeType \<lparr> blob_bytes = [0x49, 0x44, 0x33], blob_type = [] \<rparr> = Inr (str ''image/tiff'')
   \<and> blob_bytes \<lparr> blob_bytes = [0x4D, 0x4D, 0xFF], blob_type = [] \<rparr> = 0x4D # 0x4D # [0xFF]
   \<and> sniffMimeType \<lparr> blob_bytes = [0x4D, 0x4D, 0xFF], blob_type = [] \<rparr> = Inr (str ''image/tiff'')"
  using sniffMimeType_tiff_star [where b = "\<lparr> blob_bytes = [0x49, 0x44, 0x33], blob_type = [] \<rparr>"
      and rest = "[0x44, 0x33]" and b' = "\<lparr> blob_bytes = [0x4D, 0x4D, 0xFF], blob_type = [] \<rparr>"
      and rest' = "[0xFF]"]
  by simp

section \<open>Properties of \<open>abortable\<close>\<close>

lemma Promise_race_pending: "Promise_race [promise, None] = promise"
  by (cases promise) auto

lemma abortable_not_aborted:
  "\<not> aborted signal \<Longrightarrow>
   snd (abortable signal promise) = Promise_race [promise, abort_promise signal]"
  by (simp add: abortable_def assertSignal_def)

text \<open>
  Claim C2. If the signal is already aborted when \<open>abortable\<close> is called, the promise
  it returns is rejected at once with the \<open>AbortError\<close> exception, whatever the wrapped
  promise is: the wrapped promise plays no part in the result, and no listener is added
  to the signal, so no race is started.
\<close>
theorem abortable_already_aborted:
  "aborted signal \<Longrightarrow>
   abortable signal promise =
     (signal, Some (0, Rejected (DOMException (str ''AbortError'') (str ''AbortError''))))"
  by (simp add: abortable_def assertSignal_def AbortError_def)

theorem abortable_already_aborted_witness:
  "aborted \<lparr> aborted = True, fires = None, listeners = 0 \<rparr>
   \<and> abortable \<lparr> aborted = True, fires = None, listeners = 0 \<rparr> (Some (0, Fulfilled (42 :: nat)))
     = (\<lparr> aborted = True, fires = None, listeners = 0 \<rparr>,
        Some (0, Rejected (DOMException (str ''AbortError'') (str ''AbortError''))))"
proof -
  have h: "aborted \<lparr> aborted = True, fires = None, listeners = 0 \<rparr>" by simp
  from h abortable_already_aborted [OF h, of "Some (0, Fulfilled (42 :: nat))"]
  show ?thesis by (rule conjI)
qed

text \<open>
  Claim C6. For a signal that is not aborted at the call and never fires afterwards, the
  promise returned by \<open>abortable\<close> settles as the wrapped promise does: fulfilled with
  the same value, rejected with the same error, or pending for ever.
\<close>
theorem abortable_never_fires:
  "\<not> aborted signal \<Longrightarrow> fires signal = None \<Longrightarrow> snd (abortable signal promise) = promise"
  by (simp add: abortable_not_aborted abort_promise_def Promise_race_pending)

theorem abortable_never_fires_witness:
  "\<not> aborted \<lparr> aborted = False, fires = None, listeners = 0 \<rparr>
   \<and> fires \<lparr> aborted = False, fires = None, listeners = 0 \<rparr> = None
   \<and> snd (abortable \<lparr> aborted = False, fires = None, listeners = 0 \<rparr>
            (Some (3, Fulfilled (7 :: nat)))) = Some (3, Fulfilled 7)
   \<and> snd (abortable \<lparr> aborted = False, fires = None, listeners = 0 \<rparr>
            (Some (2, Rejected (Error (str ''Image loading error''))) :: nat promise))
       = Some (2, Rejected (Error (str ''Image loading error'')))"
proof -
  let ?s = "\<lparr> aborted = False, fires = None, listeners = 0 \<rparr>"
  have h1: "\<not> aborted ?s" and h2: "fires ?s = None" by simp_all
  from h1 h2 abortable_never_fires [OF h1 h2, of "Some (3, Fulfilled (7 :: nat))"]
    abortable_never_fires [OF h1 h2, of "Some (2, Rejected (Error (str ''Image loading error''))) :: nat promise"]
  show ?thesis by blast
qed




section \<open>Properties of \<open>canDecodeImageType\<close>\<close>

lemma canDecode_hit:
  "canDecodeCache st type = Some p \<Longrightarrow> canDecodeImageType type st = (p, st)"
  by (simp add: canDecodeImageType_def)

lemma canDecode_miss:
  "canDecodeCache st type = None \<Longrightarrow>
   canDecodeImageType type st =
     (length (promises st),
      st\<lparr> promises := promises st @ [Pending type],
          probes := probes st @ [type],
          canDecodeCache := (canDecodeCache st)(type \<mapsto> length (promises st)) \<rparr>)"
  by (simp add: canDecodeImageType_def Let_def)

lemma step_keeps_entry:
  "canDecodeCache st type = Some p \<Longrightarrow> canDecodeCache (step supports ev st) type = Some p"
proof (cases ev)
  case (Call l)
  assume c: "canDecodeCache st type = Some p"
  show ?thesis
  proof (cases "canDecodeCache st l")
    case None
    with c have "l \<noteq> type" by auto
    with c None Call show ?thesis by (simp add: canDecode_miss)
  next
    case (Some q)
    with c Call show ?thesis by (simp add: canDecode_hit)
  qed
next
  case Microtasks
  assume "canDecodeCache st type = Some p"
  with Microtasks show ?thesis by (simp add: microtasks_def)
qed

lemma run_keeps_entry:
  "canDecodeCache st type = Some p \<Longrightarrow> canDecodeCache (run supports evs st) type = Some p"
  by (induction evs arbitrary: st) (simp_all add: step_keeps_entry)

lemma step_invariant:
  assumes "distinct (probes st)" and "dom (canDecodeCache st) = set (probes st)"
  shows "distinct (probes (step supports ev st))
         \<and> dom (canDecodeCache (step supports ev st)) = set (probes (step supports ev st))
         \<and> set (probes (step supports ev st))
           = set (probes st) \<union> (case ev of Call l \<Rightarrow> {l} | Microtasks \<Rightarrow> {})"
proof (cases ev)
  case (Call l)
  show ?thesis
  proof (cases "canDecodeCache st l")
    case None
    then have "l \<notin> dom (canDecodeCache st)" by (simp add: domIff)
    with assms(2) have "l \<notin> set (probes st)" by simp
    with None Call assms show ?thesis by (simp add: canDecode_miss)
  next
    case (Some q)
    then have "l \<in> dom (canDecodeCache st)" by (simp add: domIff)
    with assms(2) have "l \<in> set (probes st)" by simp
    with Some Call assms show ?thesis by (auto simp: canDecode_hit)
  qed
next
  case Microtasks
  with assms show ?thesis by (simp add: microtasks_def)
qed

lemma run_invariant:
  "distinct (probes st) \<Longrightarrow> dom (canDecodeCache st) = set (probes st) \<Longrightarrow>
   distinct (probes (run supports evs st))
   \<and> dom (canDecodeCache (run supports evs st)) = set (probes (run supports evs st))
   \<and> set (probes (run supports evs st)) = set (probes st) \<union> {l. Call l \<in> set evs}"
proof (induction evs arbitrary: st)
  case Nil
  then show ?case by simp
next
  case (Cons ev evs)
  from step_invariant [OF Cons.prems, of supports ev]
  have d: "distinct (probes (step supports ev st))"
    and c: "dom (canDecodeCache (step supports ev st)) = set (probes (step supports ev st))"
    and s: "set (probes (step supports ev st))
           = set (probes st) \<union> (case ev of Call l \<Rightarrow> {l} | Microtasks \<Rightarrow> {})"
    by blast+
  from Cons.IH [OF d c] s show ?case
    by (cases ev) auto
qed

lemma count_list_distinct:
  "distinct xs \<Longrightarrow> count_list xs x = (if x \<in> set xs then 1 else 0)"
  by (induction xs) auto

lemma run_init:
  "distinct (probes (run supports evs init_state))
   \<and> dom (canDecodeCache (run supports evs init_state)) = set (probes (run supports evs init_state))
   \<and> set (probes (run supports evs init_state)) = {l. Call l \<in> set evs}"
  using run_invariant [of init_state supports evs] by (simp add: init_state_def)

text \<open>
  Claim C3. After any sequence of calls and microtask runs from the initial state, a type
  has been probed exactly once if it was ever asked for, and never otherwise. A call for
  a type that is in the cache returns the stored promise and leaves the state as it is,
  and the entry stays what it is through any later events. Two calls in a row for a new
  type make one probe, and the second returns the promise of the first, still pending.
\<close>
theorem canDecodeImageType_probes_once:
  "st = run supports evs init_state \<Longrightarrow>
   count_list (probes st) type = (if Call type \<in> set evs then 1 else 0)
   \<and> (canDecodeCache st type = Some p \<longrightarrow>
        canDecodeImageType type st = (p, st)
        \<and> canDecodeCache (run supports evs' st) type = Some p)
   \<and> (Call type \<notin> set evs \<longrightarrow>
        canDecodeCache st type = None
        \<and> fst (canDecodeImageType type st) = length (promises st)
        \<and> canDecodeImageType type (snd (canDecodeImageType type st))
            = (length (promises st), snd (canDecodeImageType type st))
        \<and> probes (snd (canDecodeImageType type st)) = probes st @ [type]
        \<and> promises (snd (canDecodeImageType type st)) ! length (promises st) = Pending type)"
proof -
  assume st: "st = run supports evs init_state"
  from run_init [of supports evs] st
  have d: "distinct (probes st)" and c: "dom (canDecodeCache st) = set (probes st)"
    and s: "set (probes st) = {l. Call l \<in> set evs}"
    by simp_all
  have 1: "count_list (probes st) type = (if Call type \<in> set evs then 1 else 0)"
    using count_list_distinct [OF d, of type] s by simp
  have 2: "canDecodeCache st type = Some p \<longrightarrow>
        canDecodeImageType type st = (p, st)
        \<and> canDecodeCache (run supports evs' st) type = Some p"
    by (simp add: canDecode_hit run_keeps_entry)
  have 3: "Call type \<notin> set evs \<longrightarrow>
        canDecodeCache st type = None
        \<and> fst (canDecodeImageType type st) = length (promises st)
        \<and> canDecodeImageType type (snd (canDecodeImageType type st))
            = (length (promises st), snd (canDecodeImageType type st))
        \<and> probes (snd (canDecodeImageType type st)) = probes st @ [type]
        \<and> promises (snd (canDecodeImageType type st)) ! length (promises st) = Pending type"
  proof
    assume "Call type \<notin> set evs"
    with s have "type \<notin> set (probes st)" by simp
    with c have "type \<notin> dom (canDecodeCache st)" by simp
    then have n: "canDecodeCache st type = None" by (simp add: domIff)
    then show "canDecodeCache st type = None
        \<and> fst (canDecodeImageType type st) = length (promises st)
        \<and> canDecodeImageType type (snd (canDecodeImageType type st))
            = (length (promises st), snd (canDecodeImageType type st))
        \<and> probes (snd (canDecodeImageType type st)) = probes st @ [type]
        \<and> promises (snd (canDecodeImageType type st)) ! length (promises st) = Pending type"
      by (simp add: canDecode_miss canDecode_hit)
  qed
  from 1 2 3 show ?thesis by blast
qed

theorem canDecodeImageType_probes_once_witness:
  "count_list
     (probes (run (\<lambda>t. t = str ''image/webp'')
        [Call (str ''image/avif''), Call (str ''image/avif''), Microtasks, Call (str ''image/avif'')]
        init_state))
     (str ''image/avif'') = 1
   \<and> canDecodeCache (run (\<lambda>t. t = str ''image/webp'')
        [Call (str ''image/avif''), Call (str ''image/avif''), Microtasks, Call (str ''image/avif'')]
        init_state) (str ''image/avif'') = Some 0
   \<and> promises (run (\<lambda>t. t = str ''image/webp'')
        [Call (str ''image/avif''), Call (str ''image/avif''), Microtasks, Call (str ''image/avif'')]
        init_state) = [Resolved False]
   \<and> canDecodeCache (run (\<lambda>t. t = str ''image/webp'') [Call (str ''image/webp'')]
        (run (\<lambda>t. t = str ''image/webp'')
          [Call (str ''image/avif''), Call (str ''image/avif''), Microtasks, Call (str ''image/avif'')]
          init_state)) (str ''image/avif'') = Some 0
   \<and> Call (str ''image/webp'') \<notin> set
        [Call (str ''image/avif''), Call (str ''image/avif''), Microtasks, Call (str ''image/avif'')]
   \<and> probes (snd (canDecodeImageType (str ''image/webp'')
        (run (\<lambda>t. t = str ''image/webp'')
          [Call (str ''image/avif''), Call (str ''image/avif''), Microtasks, Call (str ''image/avif'')]
          init_state))) = [str ''image/avif'', str ''image/webp'']"
proof -
  let ?sup = "\<lambda>t. t = str ''image/webp''"
  let ?evs = "[Call (str ''image/avif''), Call (str ''image/avif''), Microtasks,
               Call (str ''image/avif'')]"
  let ?st = "run ?sup ?evs init_state"
  have ne: "str ''image/webp'' \<noteq> str ''image/avif''" by (simp add: str_def)
  have e: "?st = \<lparr> canDecodeCache = [str ''image/avif'' \<mapsto> 0], promises = [Resolved False],
                   probes = [str ''image/avif''] \<rparr>"
    using ne by (simp add: init_state_def canDecodeImageType_def microtasks_def Let_def)
  have h1: "canDecodeCache ?st (str ''image/avif'') = Some 0" by (simp only: e) simp
  have h2: "Call (str ''image/webp'') \<notin> set ?evs" using ne by simp
  have h3: "promises ?st = [Resolved False]" by (simp only: e) simp
  have h4: "probes ?st = [str ''image/avif'']" by (simp only: e) simp
  note a = canDecodeImageType_probes_once [OF refl, of ?sup ?evs "str ''image/avif''" 0
      "[Call (str ''image/webp'')]"]
  note b = canDecodeImageType_probes_once [OF refl, of ?sup ?evs "str ''image/webp''"]
  from a have c1: "count_list (probes ?st) (str ''image/avif'') = 1" by simp
  from a h1 have c2: "canDecodeCache (run ?sup [Call (str ''image/webp'')] ?st) (str ''image/avif'')
                      = Some 0" by blast
  from b h2 have "probes (snd (canDecodeImageType (str ''image/webp'') ?st))
                  = probes ?st @ [str ''image/webp'']" by blast
  with h4 have c3: "probes (snd (canDecodeImageType (str ''image/webp'') ?st))
                    = [str ''image/avif'', str ''image/webp'']" by simp
  from c1 h1 h3 c2 h2 c3 show ?thesis by blast
qed

section \<open>Properties of \<open>canvasEncode\<close>\<close>

lemma rmatch_lits:
  "rmatch (lits w @ r) b (str w @ s) =
     map_option (\<lambda>gs. map (\<lambda>c. [c]) (str w) @ gs) (rmatch r (b \<and> w = []) s)"
proof (induction w arbitrary: b)
  case Nil
  show ?case by (simp add: lits_def str_def option.map_ident)
next
  case (Cons c w)
  have "rmatch (lits (c # w) @ r) b (str (c # w) @ s) =
        map_option (Cons [of_char c]) (rmatch (lits w @ r) False (str w @ s))"
    by (simp add: lits_def str_def)
  also have "\<dots> = map_option (Cons [of_char c])
        (map_option (\<lambda>gs. map (\<lambda>c. [c]) (str w) @ gs) (rmatch r (False \<and> w = []) s))"
    by (simp only: Cons.IH)
  also have "\<dots> = map_option (\<lambda>gs. map (\<lambda>c. [c]) (str (c # w)) @ gs) (rmatch r False s)"
    by (simp add: option.map_comp comp_def str_def)
  finally show ?case by simp
qed

lemma rmatch_Star_run:
  "\<forall>c \<in> set xs. atom_ok a c \<Longrightarrow> rmatch (Star a # r) False s = Some (g # gs) \<Longrightarrow>
   rmatch (Star a # r) False (xs @ s) = Some ((xs @ g) # gs)"
  by (induction xs) simp_all

lemma rmatch_Plus_run:
  assumes "xs \<noteq> []" and "\<forall>c \<in> set xs. atom_ok a c"
    and "rmatch (Star a # r) False s = Some (g # gs)"
  shows "rmatch (Plus a # r) b (xs @ s) = Some ((xs @ g) # gs)"
proof -
  from assms(1) obtain x xs' where xs: "xs = x # xs'" by (cases xs) auto
  with assms(2) have "\<forall>c \<in> set xs'. atom_ok a c" and x: "atom_ok a x" by simp_all
  from rmatch_Star_run [OF this(1) assms(3)] x show ?thesis
    by (simp add: xs)
qed

lemma rmatch_payload:
  "\<forall>c \<in> set b64. atom_ok Dot c \<Longrightarrow> rmatch [Star Dot, Eos] False b64 = Some [b64, []]"
  using rmatch_Star_run [of b64 Dot "[Eos]" "[]" "[]" "[Nil]"] by simp

lemma exec_from_hit: "rmatch r b s = Some gs \<Longrightarrow> exec_from r b s = Some gs"
  by (cases s) simp_all

lemma dataUrl_groups:
  assumes "mime \<noteq> []" and "of_char CHR '';'' \<notin> set mime" and "\<forall>c \<in> set b64. atom_ok Dot c"
  shows "regexp_exec dataUrlPattern (str ''data:'' @ mime @ str '';base64,'' @ b64) =
         Some (map (\<lambda>c. [c]) (str ''data:'') @ [mime]
               @ map (\<lambda>c. [c]) (str '';base64,'') @ [b64, []])"
proof -
  let ?tail = "lits '';base64,'' @ [Star Dot, Eos]"
  let ?a = "NegClass (str '';'')"
  have t: "rmatch ?tail False (str '';base64,'' @ b64) =
           Some (map (\<lambda>c. [c]) (str '';base64,'') @ [b64, []])"
    by (simp only: rmatch_lits simp_thms rmatch_payload [OF assms(3)] option.map)
  have "\<not> atom_ok ?a (of_char CHR '';'')" by (simp add: str_def)
  moreover have "str '';base64,'' @ b64 = of_char CHR '';'' # str ''base64,'' @ b64"
    by (simp add: str_def)
  ultimately have s: "rmatch (Star ?a # ?tail) False (str '';base64,'' @ b64) =
           Some ([] # map (\<lambda>c. [c]) (str '';base64,'') @ [b64, []])"
    using t by simp
  have ok: "\<forall>c \<in> set mime. atom_ok ?a c"
    using assms(2) by (auto simp: str_def)
  have p: "rmatch (Plus ?a # ?tail) False (mime @ str '';base64,'' @ b64) =
           Some ((mime @ []) # map (\<lambda>c. [c]) (str '';base64,'') @ [b64, []])"
    by (rule rmatch_Plus_run [OF assms(1) ok s])
  have "rmatch dataUrlPattern True (str ''data:'' @ mime @ str '';base64,'' @ b64) =
        map_option (\<lambda>gs. map (\<lambda>c. [c]) (str ''data:'') @ gs)
          (rmatch (Plus ?a # ?tail) (True \<and> ''data:'' = []) (mime @ str '';base64,'' @ b64))"
    unfolding dataUrlPattern_def by (simp only: rmatch_lits append_Cons append_Nil)
  also have "\<dots> = Some (map (\<lambda>c. [c]) (str ''data:'') @ [mime]
               @ map (\<lambda>c. [c]) (str '';base64,'') @ [b64, []])"
    using p by simp
  finally show ?thesis
    by (simp only: regexp_exec_def exec_from_hit)
qed

lemma dataUrl_group_1:
  "(map (\<lambda>c. [c]) (str ''data:'') @ [mime] @ map (\<lambda>c. [c]) (str '';base64,'') @ [b64, []]) ! 5
   = mime"
  by (simp add: str_def)

lemma dataUrl_group_2:
  "(map (\<lambda>c. [c]) (str ''data:'') @ [mime] @ map (\<lambda>c. [c]) (str '';base64,'') @ [b64, []]) ! 14
   = b64"
  by (simp add: str_def)

text \<open>
  Claim C8 says that the blob returned has the requested type. It need not: a browser
  that cannot encode \<open>image/webp\<close> hands a PNG blob to the callback of \<open>toBlob\<close>, and
  \<open>canvasEncode\<close> returns it.
\<close>

theorem canvasEncode_type_counterexample:
  "canvasEncode png_only_browser \<lparr> img_width = 1, img_height = 1, img_data = [0, 0, 0, 0] \<rparr>
     (str ''image/webp'') None
   = Inr \<lparr> blob_bytes = [0x89, 0x50, 0x4E, 0x47], blob_type = str ''image/png'' \<rparr>
   \<and> blob_type \<lparr> blob_bytes = [0x89, 0x50, 0x4E, 0x47], blob_type = str ''image/png'' \<rparr>
     \<noteq> str ''image/webp''"
  by (simp add: canvasEncode_def png_only_browser_def str_def)

text \<open>
  Claim C8, amended. \<open>canvasEncode\<close> returns a blob or throws; the type of the blob is
  the one the browser produced. With \<open>toBlob\<close>, the blob handed to the callback is
  returned, and no blob is the failure \<open>Encoding failed\<close>. Without \<open>toBlob\<close>, the data
  URL is parsed: if the pattern does not match, the failure is
  \<open>Data URL reading failed\<close>; on \<open>data:MIME;base64,PAYLOAD\<close> the result is the
  blob of the bytes \<open>atob\<close> decodes from \<open>PAYLOAD\<close>, or what \<open>atob\<close> throws; the
  type of that blob is \<open>MIME\<close> in lower case, or empty if \<open>MIME\<close> has a character
  outside \<open>U+0020\<close> to \<open>U+007E\<close>.
\<close>

theorem canvasEncode_outcomes:
  "(\<not> getContext2d env \<longrightarrow>
      canvasEncode env d type q = Inl (Error (str ''Canvas not initialized'')))
   \<and> (getContext2d env \<and> has_toBlob env \<and> toBlob env d type q = None \<longrightarrow>
      canvasEncode env d type q = Inl (Error (str ''Encoding failed'')))
   \<and> (getContext2d env \<and> has_toBlob env \<and> toBlob env d type q = Some b \<longrightarrow>
      canvasEncode env d type q = Inr b)
   \<and> (getContext2d env \<and> \<not> has_toBlob env
        \<and> regexp_exec dataUrlPattern (toDataURL env d type q) = None \<longrightarrow>
      canvasEncode env d type q = Inl (Error (str ''Data URL reading failed'')))
   \<and> (getContext2d env \<and> \<not> has_toBlob env
        \<and> toDataURL env d type q = str ''data:'' @ mime @ str '';base64,'' @ b64
        \<and> mime \<noteq> [] \<and> of_char CHR '';'' \<notin> set mime \<and> (\<forall>c \<in> set b64. atom_ok Dot c) \<longrightarrow>
      canvasEncode env d type q =
        (case atob env b64 of
           Inl e \<Rightarrow> Inl e
         | Inr binaryStr \<Rightarrow>
             Inr \<lparr> blob_bytes = map of_nat binaryStr,
                   blob_type = (if \<exists>c \<in> set mime. c < 0x20 \<or> 0x7E < c then []
                                else map ascii_lowercase mime) \<rparr>))"
proof (intro conjI impI)
  assume "\<not> getContext2d env"
  then show "canvasEncode env d type q = Inl (Error (str ''Canvas not initialized''))"
    by (simp add: canvasEncode_def)
next
  assume "getContext2d env \<and> has_toBlob env \<and> toBlob env d type q = None"
  then show "canvasEncode env d type q = Inl (Error (str ''Encoding failed''))"
    by (simp add: canvasEncode_def)
next
  assume "getContext2d env \<and> has_toBlob env \<and> toBlob env d type q = Some b"
  then show "canvasEncode env d type q = Inr b"
    by (simp add: canvasEncode_def)
next
  assume "getContext2d env \<and> \<not> has_toBlob env
        \<and> regexp_exec dataUrlPattern (toDataURL env d type q) = None"
  then show "canvasEncode env d type q = Inl (Error (str ''Data URL reading failed''))"
    by (simp add: canvasEncode_def)
next
  assume a: "getContext2d env \<and> \<not> has_toBlob env
        \<and> toDataURL env d type q = str ''data:'' @ mime @ str '';base64,'' @ b64
        \<and> mime \<noteq> [] \<and> of_char CHR '';'' \<notin> set mime \<and> (\<forall>c \<in> set b64. atom_ok Dot c)"
  then have "regexp_exec dataUrlPattern (toDataURL env d type q) =
         Some (map (\<lambda>c. [c]) (str ''data:'') @ [mime]
               @ map (\<lambda>c. [c]) (str '';base64,'') @ [b64, []])"
    using dataUrl_groups [of mime b64] by simp
  with a show "canvasEncode env d type q =
        (case atob env b64 of
           Inl e \<Rightarrow> Inl e
         | Inr binaryStr \<Rightarrow>
             Inr \<lparr> blob_bytes = map of_nat binaryStr,
                   blob_type = (if \<exists>c \<in> set mime. c < 0x20 \<or> 0x7E < c then []
                                else map ascii_lowercase mime) \<rparr>)"
    by (simp only: canvasEncode_def new_Blob_def Let_def dataUrl_group_1 dataUrl_group_2
        option.case if_True if_False not_True_eq_False not_False_eq_True simp_thms)
      (simp split: sum.splits)
qed

theorem canvasEncode_outcomes_witness:
  "canvasEncode
     \<lparr> getContext2d = False, has_toBlob = True, toBlob = (\<lambda>d t q. None),
       toDataURL = (\<lambda>d t q. []), atob = (\<lambda>s. Inr []) \<rparr>
     \<lparr> img_width = 1, img_height = 1, img_data = [0, 0, 0, 0] \<rparr>
     (str ''image/jpeg'') (None :: nat option)
   = Inl (Error (str ''Canvas not initialized''))
   \<and> canvasEncode
     \<lparr> getContext2d = True, has_toBlob = True, toBlob = (\<lambda>d t q. None),
       toDataURL = (\<lambda>d t q. []), atob = (\<lambda>s. Inr []) \<rparr>
     \<lparr> img_width = 1, img_height = 1, img_data = [0, 0, 0, 0] \<rparr>
     (str ''image/jpeg'') (None :: nat option)
   = Inl (Error (str ''Encoding failed''))
   \<and> canvasEncode
     \<lparr> getContext2d = True, has_toBlob = True,
       toBlob = (\<lambda>d t q. Some \<lparr> blob_bytes = [0xFF, 0xD8, 0xFF], blob_type = t \<rparr>),
       toDataURL = (\<lambda>d t q. []), atob = (\<lambda>s. Inr []) \<rparr>
     \<lparr> img_width = 1, img_height = 1, img_data = [0, 0, 0, 0] \<rparr>
     (str ''image/jpeg'') (None :: nat option)
   = Inr \<lparr> blob_bytes = [0xFF, 0xD8, 0xFF], blob_type = str ''image/jpeg'' \<rparr>
   \<and> regexp_exec dataUrlPattern (str ''data:,'') = None
   \<and> canvasEncode
     \<lparr> getContext2d = True, has_toBlob = False, toBlob = (\<lambda>d t q. None),
       toDataURL = (\<lambda>d t q. str ''data:,''), atob = (\<lambda>s. Inr []) \<rparr>
     \<lparr> img_width = 0, img_height = 0, img_data = [] \<rparr>
     (str ''image/jpeg'') (None :: nat option)
   = Inl (Error (str ''Data URL reading failed''))
   \<and> canvasEncode
     \<lparr> getContext2d = True, has_toBlob = False, toBlob = (\<lambda>d t q. None),
       toDataURL = (\<lambda>d t q. str ''data:IMAGE/PNG;base64,iVBORw==''),
       atob = (\<lambda>s. if s = str ''iVBORw=='' then Inr [0x89, 0x50, 0x4E, 0x47]
                    else Inl (DOMException (str ''Invalid character'') (str ''InvalidCharacterError''))) \<rparr>
     \<lparr> img_width = 1, img_height = 1, img_data = [0, 0, 0, 0] \<rparr>
     (str ''image/png'') (None :: nat option)
   = Inr \<lparr> blob_bytes = [0x89, 0x50, 0x4E, 0x47], blob_type = str ''image/png'' \<rparr>"
proof -
  let ?d = "\<lparr> img_width = 1, img_height = 1, img_data = [0, 0, 0, 0] \<rparr>"
  let ?empty = "\<lparr> img_width = 0, img_height = 0, img_data = [] \<rparr>"
  let ?q = "None :: nat option"
  let ?e1 = "\<lparr> getContext2d = False, has_toBlob = True, toBlob = (\<lambda>d t q. None),
       toDataURL = (\<lambda>d t q. []), atob = (\<lambda>s. Inr []) \<rparr> :: nat browser"
  let ?e2 = "\<lparr> getContext2d = True, has_toBlob = True, toBlob = (\<lambda>d t q. None),
       toDataURL = (\<lambda>d t q. []), atob = (\<lambda>s. Inr []) \<rparr> :: nat browser"
  let ?e3 = "\<lparr> getContext2d = True, has_toBlob = True,
       toBlob = (\<lambda>d t q. Some \<lparr> blob_bytes = [0xFF, 0xD8, 0xFF], blob_type = t \<rparr>),
       toDataURL = (\<lambda>d t q. []), atob = (\<lambda>s. Inr []) \<rparr> :: nat browser"
  let ?e4 = "\<lparr> getContext2d = True, has_toBlob = False, toBlob = (\<lambda>d t q. None),
       toDataURL = (\<lambda>d t q. str ''data:,''), atob = (\<lambda>s. Inr []) \<rparr> :: nat browser"
  let ?e5 = "\<lparr> getContext2d = True, has_toBlob = False, toBlob = (\<lambda>d t q. None),
       toDataURL = (\<lambda>d t q. str ''data:IMAGE/PNG;base64,iVBORw==''),
       atob = (\<lambda>s. if s = str ''iVBORw=='' then Inr [0x89, 0x50, 0x4E, 0x47]
                    else Inl (DOMException (str ''Invalid character'') (str ''InvalidCharacterError''))) \<rparr>
       :: nat browser"
  have x: "regexp_exec dataUrlPattern (str ''data:,'') = None"
    by (simp add: regexp_exec_def dataUrlPattern_def lits_def str_def)
  have c1: "canvasEncode ?e1 ?d (str ''image/jpeg'') ?q = Inl (Error (str ''Canvas not initialized''))"
    using canvasEncode_outcomes [where env = ?e1 and d = ?d and type = "str ''image/jpeg''" and q = ?q]
    by simp
  have c2: "canvasEncode ?e2 ?d (str ''image/jpeg'') ?q = Inl (Error (str ''Encoding failed''))"
    using canvasEncode_outcomes [where env = ?e2 and d = ?d and type = "str ''image/jpeg''" and q = ?q]
    by simp
  have c3: "canvasEncode ?e3 ?d (str ''image/jpeg'') ?q
            = Inr \<lparr> blob_bytes = [0xFF, 0xD8, 0xFF], blob_type = str ''image/jpeg'' \<rparr>"
    using canvasEncode_outcomes [where env = ?e3 and d = ?d and type = "str ''image/jpeg''" and q = ?q
        and b = "\<lparr> blob_bytes = [0xFF, 0xD8, 0xFF], blob_type = str ''image/jpeg'' \<rparr>"]
    by simp
  have c4: "canvasEncode ?e4 ?empty (str ''image/jpeg'') ?q = Inl (Error (str ''Data URL reading failed''))"
    using canvasEncode_outcomes [where env = ?e4 and d = ?empty and type = "str ''image/jpeg''" and q = ?q] x
    by simp
  have u: "str ''data:IMAGE/PNG;base64,iVBORw==''
           = str ''data:'' @ str ''IMAGE/PNG'' @ str '';base64,'' @ str ''iVBORw==''"
    by (simp add: str_def)
  have m: "str ''IMAGE/PNG'' \<noteq> [] \<and> of_char CHR '';'' \<notin> set (str ''IMAGE/PNG'')
           \<and> (\<forall>c \<in> set (str ''iVBORw==''). atom_ok Dot c)"
    by (simp add: str_def)
  have l: "(if \<exists>c \<in> set (str ''IMAGE/PNG''). c < 0x20 \<or> 0x7E < c then []
            else map ascii_lowercase (str ''IMAGE/PNG'')) = str ''image/png''"
    by (simp add: str_def ascii_lowercase_def)
  have c5: "canvasEncode ?e5 ?d (str ''image/png'') ?q
            = Inr \<lparr> blob_bytes = [0x89, 0x50, 0x4E, 0x47], blob_type = str ''image/png'' \<rparr>"
    using canvasEncode_outcomes [where env = ?e5 and d = ?d and type = "str ''image/png''" and q = ?q
        and mime = "str ''IMAGE/PNG''" and ?b64.0 = "str ''iVBORw==''"] u m
    by (simp only: l) simp
  from c1 c2 c3 x c4 c5 show ?thesis by blast
qed

end
